theory Spec2Isabelle
  imports Complex_Main
begin

section \<open>Data model of the garden planner component\<close>

text \<open>
  The component \<open>GardenPlanner\<close> keeps its state in React state variables and two DOM
  references. JavaScript numbers are modelled as \<open>real\<close> (coordinates, sizes) or
  \<open>int\<close> (identifiers taken from \<open>Date.now()\<close>); a value that JavaScript would
  compute as \<open>Infinity\<close> or \<open>NaN\<close> has no counterpart in \<open>real\<close> and is reported
  as the result \<open>NonFinite\<close>. A property read on \<open>null\<close> or \<open>undefined\<close> raises
  \<open>TypeError\<close> in the source and is the result \<open>TypeError\<close> here.
\<close>

datatype error = TypeError | NonFinite

record journal_entry =
  entry_id :: int
  entry_timestamp :: int
  entry_text :: string
  entry_photos :: "string list"

record plant_ref =
  source :: string
  displayName :: string
  scientificName :: string
  imageUrl :: string
  infoUrl :: string

record marker =
  marker_id :: int
  marker_x :: real
  marker_y :: real
  label :: string
  description :: string
  photos :: "string list"
  journalEntries :: "journal_entry list"
  linkedPlant :: "plant_ref option"
  color :: string

text \<open>A project as stored in the project list; \<open>markers\<close> and
  \<open>globalJournalEntries\<close> may be missing in loaded data (\<open>project.markers || []\<close>).\<close>

record project =
  project_id :: int
  project_name :: string
  project_image :: string
  project_markers :: "marker list option"
  project_globalJournalEntries :: "journal_entry list option"

datatype tool = pan_tool | marker_tool

record point =
  pt_x :: real
  pt_y :: real

text \<open>The value returned by \<open>getPointerPos\<close>: \<open>{ x, y, clientX, clientY }\<close>.\<close>

record pointer_pos =
  pos_x :: real
  pos_y :: real
  pos_clientX :: real
  pos_clientY :: real

text \<open>The rectangle returned by \<open>canvas.getBoundingClientRect()\<close>; it is decided by
  the browser's layout at the time of the event and is an input of every pointer handler.\<close>

record dom_rect =
  rect_left :: real
  rect_top :: real
  rect_width :: real
  rect_height :: real

text \<open>A mouse event carries \<open>clientX, clientY\<close>; a touch event carries the list
  \<open>e.touches\<close> of touch points, each with its \<open>clientX, clientY\<close>.\<close>

datatype pointer_event = MouseEvent real real | TouchEvent "(real \<times> real) list"

text \<open>What has been drawn on the raster surface since it was last reset.\<close>

datatype draw_cmd =
    ClearRect real real real real
  | FillArc real real real string real
  | StrokeArc real real real string real
  | FillRoundRect real real real real real string
  | FillText string real real string

record canvas =
  width :: nat
  height :: nat
  style_width :: nat
  style_height :: nat
  drawn :: "draw_cmd list"

record image =
  complete :: bool
  naturalWidth :: nat
  naturalHeight :: nat
  img_width :: nat
  img_height :: nat

record state =
  projects :: "project list"
  currentProject :: "project option"
  markers :: "marker list"
  tool :: tool
  selectedItem :: "marker option"
  showNoteDialog :: bool
  showDeleteMarkerConfirm :: bool
  noteText :: string
  noteDescription :: string
  notePhotos :: "string list"
  markerJournalEntries :: "journal_entry list"
  linkedPlant_edit :: "plant_ref option"
  newJournalText :: string
  newJournalPhotos :: "string list"
  globalJournalEntries :: "journal_entry list"
  scale :: real
  pan :: point
  isPanning :: bool
  panStart :: point
  relocatingMarker :: "marker option"
  imageLoaded :: bool
  canvasRef :: "canvas option"
  imageRef :: "image option"

section \<open>Pointer logic\<close>

text \<open>\<open>e.touches ? e.touches[0].clientX : e.clientX\<close>: on a touch event with an
  empty touch list \<open>e.touches[0]\<close> is \<open>undefined\<close> and reading \<open>clientX\<close> raises.\<close>

fun clientPoint :: "pointer_event \<Rightarrow> error + (real \<times> real)" where
  "clientPoint (MouseEvent cx cy) = Inr (cx, cy)"
| "clientPoint (TouchEvent []) = Inl TypeError"
| "clientPoint (TouchEvent (t # ts)) = Inr t"

definition getPointerPos :: "state \<Rightarrow> dom_rect \<Rightarrow> pointer_event \<Rightarrow> error + pointer_pos" where
  "getPointerPos s rect e =
     (case clientPoint e of
        Inl err \<Rightarrow> Inl err
      | Inr (clientX, clientY) \<Rightarrow>
          (case canvasRef s of
             None \<Rightarrow> Inl TypeError
           | Some cv \<Rightarrow>
               if rect_width rect = 0 \<or> rect_height rect = 0 then Inl NonFinite
               else
                 let scaleX = real (width cv) / rect_width rect;
                     scaleY = real (height cv) / rect_height rect
                 in Inr \<lparr> pos_x = (clientX - rect_left rect) * scaleX,
                          pos_y = (clientY - rect_top rect) * scaleY,
                          pos_clientX = clientX,
                          pos_clientY = clientY \<rparr>))"

text \<open>\<open>{ x: pos.clientX - pan.x, y: pos.clientY - pan.y }\<close>\<close>

definition startPan :: "state \<Rightarrow> pointer_pos \<Rightarrow> state" where
  "startPan s pos =
     s\<lparr> isPanning := True,
        panStart := \<lparr> pt_x = pos_clientX pos - pt_x (pan s),
                      pt_y = pos_clientY pos - pt_y (pan s) \<rparr> \<rparr>"

definition handleStart :: "state \<Rightarrow> dom_rect \<Rightarrow> pointer_event \<Rightarrow> error + state" where
  "handleStart s rect e =
     (if currentProject s = None then Inr s
      else case getPointerPos s rect e of
        Inl err \<Rightarrow> Inl err
      | Inr pos \<Rightarrow>
          (case relocatingMarker s of
             Some rm \<Rightarrow>
               let dx = marker_x rm - pos_x pos;
                   dy = marker_y rm - pos_y pos
               in if sqrt (dx * dx + dy * dy) > 50 then Inr (startPan s pos) else Inr s
           | None \<Rightarrow>
               if tool s = pan_tool then Inr (startPan s pos) else Inr s))"

definition handleMove :: "state \<Rightarrow> dom_rect \<Rightarrow> pointer_event \<Rightarrow> error + state" where
  "handleMove s rect e =
     (if currentProject s = None then Inr s
      else case getPointerPos s rect e of
        Inl err \<Rightarrow> Inl err
      | Inr pos \<Rightarrow>
          (case (if isPanning s then None else relocatingMarker s) of
             Some rm \<Rightarrow>
               let updated = rm\<lparr> marker_x := pos_x pos, marker_y := pos_y pos \<rparr>
               in Inr (s\<lparr> relocatingMarker := Some updated,
                          markers := map (\<lambda>m. if marker_id m = marker_id updated then updated else m)
                                         (markers s) \<rparr>)
           | None \<Rightarrow>
               if isPanning s
               then Inr (s\<lparr> pan := \<lparr> pt_x = pos_clientX pos - pt_x (panStart s),
                                       pt_y = pos_clientY pos - pt_y (panStart s) \<rparr> \<rparr>)
               else Inr s))"

definition handleEnd :: "state \<Rightarrow> state" where
  "handleEnd s = s\<lparr> isPanning := False \<rparr>"

section \<open>Hit test and marker creation\<close>

text \<open>\<open>markers.find(m => { dx = m.x - pos.x; dy = m.y - pos.y;
  return Math.sqrt(dx*dx + dy*dy) < 30; })\<close>\<close>

definition hitMarker :: "marker list \<Rightarrow> pointer_pos \<Rightarrow> marker option" where
  "hitMarker ms pos =
     find (\<lambda>m. let dx = marker_x m - pos_x pos; dy = marker_y m - pos_y pos
                in sqrt (dx * dx + dy * dy) < 30) ms"

text \<open>The decimal numeral of the template literal \<open>`Plant ${markers.length + 1}`\<close>.\<close>

fun decimal :: "nat \<Rightarrow> string" where
  "decimal n =
     (if n < 10 then [char_of (48 + n)]
      else decimal (n div 10) @ [char_of (48 + n mod 10)])"

definition openMarkerDialog :: "marker \<Rightarrow> state \<Rightarrow> state" where
  "openMarkerDialog m s =
     s\<lparr> selectedItem := Some m,
        noteText := label m,
        noteDescription := description m,
        notePhotos := photos m,
        markerJournalEntries := journalEntries m,
        linkedPlant_edit := linkedPlant m,
        newJournalText := [],
        newJournalPhotos := [],
        showNoteDialog := True \<rparr>"

text \<open>\<open>now\<close> is the value \<open>Date.now()\<close> returns when the click is handled.\<close>

definition newMarker :: "int \<Rightarrow> pointer_pos \<Rightarrow> marker list \<Rightarrow> marker" where
  "newMarker now pos ms =
     \<lparr> marker_id = now, marker_x = pos_x pos, marker_y = pos_y pos,
       label = ''Plant '' @ decimal (length ms + 1),
       description = [], photos = [], journalEntries = [], linkedPlant = None,
       color = ''#10b981'' \<rparr>"

definition handleCanvasClick :: "state \<Rightarrow> dom_rect \<Rightarrow> pointer_event \<Rightarrow> int \<Rightarrow> error + state" where
  "handleCanvasClick s rect e now =
     (if currentProject s = None then Inr s
      else if relocatingMarker s \<noteq> None then Inr s
      else case getPointerPos s rect e of
        Inl err \<Rightarrow> Inl err
      | Inr pos \<Rightarrow>
          (case hitMarker (markers s) pos of
             Some hit \<Rightarrow> if tool s \<noteq> pan_tool then Inr (openMarkerDialog hit s) else Inr s
           | None \<Rightarrow>
               if tool s = marker_tool
               then let nm = newMarker now pos (markers s)
                    in Inr (openMarkerDialog nm (s\<lparr> markers := markers s @ [nm] \<rparr>))
               else Inr s))"

definition handleZoom :: "real \<Rightarrow> state \<Rightarrow> state" where
  "handleZoom delta s = s\<lparr> scale := max (2 / 10) (min 5 (scale s + delta)) \<rparr>"

section \<open>Dialog actions: relocation, saving and deleting a marker\<close>

definition startRelocation :: "state \<Rightarrow> state" where
  "startRelocation s =
     (case selectedItem s of
        Some m \<Rightarrow> s\<lparr> relocatingMarker := Some m, showNoteDialog := False, selectedItem := None \<rparr>
      | None \<Rightarrow> s)"

text \<open>\<open>projects.find(p => p.id === currentProject.id)?.markers.find(m => m.id ===
  relocatingMarker.id)\<close>: reading \<open>currentProject.id\<close> raises when there is no current
  project and the list is not empty; \<open>?.\<close> yields \<open>undefined\<close> when no project matches;
  \<open>.find\<close> on a missing \<open>markers\<close> field raises.\<close>

definition originalMarker :: "state \<Rightarrow> marker \<Rightarrow> error + marker option" where
  "originalMarker s rm =
     (case currentProject s of
        None \<Rightarrow> if projects s = [] then Inr None else Inl TypeError
      | Some cp \<Rightarrow>
          (case find (\<lambda>p. project_id p = project_id cp) (projects s) of
             None \<Rightarrow> Inr None
           | Some p \<Rightarrow>
               (case project_markers p of
                  None \<Rightarrow> Inl TypeError
                | Some ms \<Rightarrow> Inr (find (\<lambda>m. marker_id m = marker_id rm) ms))))"

definition finishRelocation :: "bool \<Rightarrow> state \<Rightarrow> error + state" where
  "finishRelocation save s =
     (case (if save then None else relocatingMarker s) of
        None \<Rightarrow> Inr (s\<lparr> relocatingMarker := None \<rparr>)
      | Some rm \<Rightarrow>
          (case originalMarker s rm of
             Inl err \<Rightarrow> Inl err
           | Inr None \<Rightarrow> Inr (s\<lparr> relocatingMarker := None \<rparr>)
           | Inr (Some original) \<Rightarrow>
               Inr (s\<lparr> markers := map (\<lambda>m. if marker_id m = marker_id rm then original else m)
                                       (markers s),
                        relocatingMarker := None \<rparr>)))"

text \<open>\<open>selectedItem.id\<close> is read inside the callback of \<open>map\<close> and \<open>filter\<close>, so it
  raises only when there is a marker to visit.\<close>

definition saveMarkerDetails :: "state \<Rightarrow> error + state" where
  "saveMarkerDetails s =
     (case selectedItem s of
        None \<Rightarrow>
          if markers s = [] then Inr (s\<lparr> showNoteDialog := False, selectedItem := None \<rparr>)
          else Inl TypeError
      | Some sel \<Rightarrow>
          Inr (s\<lparr> markers :=
                     map (\<lambda>m. if marker_id m = marker_id sel
                               then m\<lparr> label := noteText s, description := noteDescription s,
                                       photos := notePhotos s,
                                       journalEntries := markerJournalEntries s,
                                       linkedPlant := linkedPlant_edit s \<rparr>
                               else m) (markers s),
                   showNoteDialog := False, selectedItem := None \<rparr>))"

definition deleteMarker :: "state \<Rightarrow> error + state" where
  "deleteMarker s =
     (case selectedItem s of
        None \<Rightarrow>
          if markers s = []
          then Inr (s\<lparr> showNoteDialog := False, selectedItem := None,
                        showDeleteMarkerConfirm := False \<rparr>)
          else Inl TypeError
      | Some sel \<Rightarrow>
          Inr (s\<lparr> markers := filter (\<lambda>m. marker_id m \<noteq> marker_id sel) (markers s),
                   showNoteDialog := False, selectedItem := None,
                   showDeleteMarkerConfirm := False \<rparr>))"

section \<open>Project lifecycle and persistence\<close>

definition loadProject :: "project \<Rightarrow> state \<Rightarrow> state" where
  "loadProject p s =
     s\<lparr> currentProject := Some p,
        markers := (case project_markers p of None \<Rightarrow> [] | Some ms \<Rightarrow> ms),
        globalJournalEntries :=
          (case project_globalJournalEntries p of None \<Rightarrow> [] | Some js \<Rightarrow> js),
        scale := 1,
        pan := \<lparr> pt_x = 0, pt_y = 0 \<rparr>,
        relocatingMarker := None,
        imageLoaded := False \<rparr>"

text \<open>The synchronous part of \<open>saveData\<close>: the entry of the current project in the project
  list is replaced by \<open>{ ...currentProject, markers, globalJournalEntries }\<close>. The list is
  then posted to the server; the reply is handled by \<open>saveResponse\<close>.\<close>

definition saveData :: "state \<Rightarrow> state" where
  "saveData s =
     (case currentProject s of
        None \<Rightarrow> s
      | Some cp \<Rightarrow>
          s\<lparr> projects :=
               map (\<lambda>p. if project_id p = project_id cp
                         then cp\<lparr> project_markers := Some (markers s),
                                  project_globalJournalEntries := Some (globalJournalEntries s) \<rparr>
                         else p) (projects s) \<rparr>)"

text \<open>\<open>if (res.ok) { const data = await res.json(); if (data.data) setProjects(data.data); }\<close>;
  the argument is the list the server sent back.\<close>

definition saveResponse :: "project list \<Rightarrow> state \<Rightarrow> state" where
  "saveResponse ps s = s\<lparr> projects := ps \<rparr>"

text \<open>\<open>useEffect(() => { if (currentProject) saveData(); },
  [markers, globalJournalEntries, currentProject])\<close>: the effect runs after a render in
  which one of the three dependencies is a new reference, whatever its content.
  \<open>changed\<close> tells whether the handler that caused the render has set one of them.\<close>

definition autoSave :: "bool \<Rightarrow> state \<Rightarrow> state" where
  "autoSave changed s = (if changed \<and> currentProject s \<noteq> None then saveData s else s)"

section \<open>Image loading and rendering\<close>

text \<open>The \<open>onLoad\<close> handler of the image element. Assigning \<open>canvas.width\<close> resets the
  raster surface.\<close>

definition imageOnLoad :: "state \<Rightarrow> state" where
  "imageOnLoad s =
     (case (canvasRef s, imageRef s) of
        (Some cv, Some img) \<Rightarrow>
          s\<lparr> canvasRef := Some (cv\<lparr> width := naturalWidth img, height := naturalHeight img,
                                     style_width := img_width img, style_height := img_height img,
                                     drawn := [] \<rparr>),
             imageLoaded := True \<rparr>
      | _ \<Rightarrow> s)"

text \<open>The label box of one marker: \<open>(labelX, labelY, boxWidth, boxHeight)\<close>, from the
  measured text width and the width of the canvas.\<close>

definition labelBox :: "real \<Rightarrow> nat \<Rightarrow> marker \<Rightarrow> real \<times> real \<times> real \<times> real" where
  "labelBox textWidth canvasWidth m =
     (let LABEL_PADDING = 6;
          boxWidth = textWidth + (LABEL_PADDING * 2);
          boxHeight = 26;
          labelX = marker_x m + 14;
          labelY = marker_y m - 13;
          labelX = (if labelX + boxWidth > real canvasWidth
                    then marker_x m - 14 - boxWidth else labelX)
      in (labelX, labelY, boxWidth, boxHeight))"

text \<open>What the body of \<open>markers.forEach\<close> draws for one marker; \<open>measureText\<close> stands
  for \<open>ctx.measureText(marker.label).width\<close> under the font set by the renderer.\<close>

definition drawMarker :: "(string \<Rightarrow> real) \<Rightarrow> nat \<Rightarrow> marker option \<Rightarrow> marker \<Rightarrow> draw_cmd list" where
  "drawMarker measureText canvasWidth relocating m =
     (let MARKER_RADIUS = 8;
          LABEL_PADDING = 6;
          isMoving = (case relocating of None \<Rightarrow> False | Some rm \<Rightarrow> marker_id rm = marker_id m);
          glyph = (if isMoving then ''#fbbf24'' else color m);
          radius = (if isMoving then 12 else MARKER_RADIUS);
          (labelX, labelY, boxWidth, boxHeight) = labelBox (measureText (label m)) canvasWidth m
      in [ FillArc (marker_x m) (marker_y m) radius glyph (if isMoving then 20 else 12),
           StrokeArc (marker_x m) (marker_y m) radius ''#fff'' 3,
           FillRoundRect labelX labelY boxWidth boxHeight 6 ''rgba(0, 0, 0, 0.85)'',
           FillText (label m) (labelX + LABEL_PADDING) (labelY + boxHeight / 2) ''#fff'' ])"

text \<open>The rendering effect. It returns early, touching nothing, when there is no current
  project, no canvas, no image element, an incomplete image or an unset \<open>imageLoaded\<close>.\<close>

definition render :: "(string \<Rightarrow> real) \<Rightarrow> state \<Rightarrow> state" where
  "render measureText s =
     (case (currentProject s, canvasRef s) of
        (Some cp, Some cv) \<Rightarrow>
          (case imageRef s of
             None \<Rightarrow> s
           | Some img \<Rightarrow>
               if \<not> complete img \<or> \<not> imageLoaded s then s
               else
                 let w = naturalWidth img; h = naturalHeight img
                 in s\<lparr> canvasRef :=
                         Some (cv\<lparr> width := w, height := h,
                                   drawn := ClearRect 0 0 (real w) (real h)
                                            # concat (map (drawMarker measureText w (relocatingMarker s))
                                                          (markers s)) \<rparr>) \<rparr>)
      | _ \<Rightarrow> s)"

section \<open>Events\<close>

text \<open>The handlers above, as they are bound to the canvas, the toolbar, the sidebar and
  the dialogs. \<open>SidebarSelect\<close> is the click on an entry of the marker list
  (\<open>openMarkerDialog(marker)\<close>).\<close>

datatype event =
    PointerDown dom_rect pointer_event
  | PointerMove dom_rect pointer_event
  | PointerEnd
  | CanvasClick dom_rect pointer_event int
  | SidebarSelect marker
  | StartRelocation
  | FinishRelocation bool
  | SaveMarkerDetails
  | DeleteMarker
  | LoadProject project
  | ImageOnLoad
  | SetTool tool
  | Zoom real
  | ResetView
  | SaveResponse "project list"

fun handler :: "event \<Rightarrow> state \<Rightarrow> error + state" where
  "handler (PointerDown rect e) s = handleStart s rect e"
| "handler (PointerMove rect e) s = handleMove s rect e"
| "handler PointerEnd s = Inr (handleEnd s)"
| "handler (CanvasClick rect e now) s = handleCanvasClick s rect e now"
| "handler (SidebarSelect m) s = Inr (openMarkerDialog m s)"
| "handler StartRelocation s = Inr (startRelocation s)"
| "handler (FinishRelocation save) s = finishRelocation save s"
| "handler SaveMarkerDetails s = saveMarkerDetails s"
| "handler DeleteMarker s = deleteMarker s"
| "handler (LoadProject p) s = Inr (loadProject p s)"
| "handler ImageOnLoad s = Inr (imageOnLoad s)"
| "handler (SetTool t) s = Inr (s\<lparr> tool := t \<rparr>)"
| "handler (Zoom delta) s = Inr (handleZoom delta s)"
| "handler ResetView s = Inr (s\<lparr> scale := 1, pan := \<lparr> pt_x = 0, pt_y = 0 \<rparr> \<rparr>)"
| "handler (SaveResponse ps) s = Inr (saveResponse ps s)"

text \<open>Whether the handler of an event, when it returns, has called \<open>setMarkers\<close>,
  \<open>setGlobalJournalEntries\<close> or \<open>setCurrentProject\<close>. Each such call passes a value
  built on the spot (\<open>markers.map(...)\<close>, \<open>markers.filter(...)\<close>,
  \<open>[...markers, newMarker]\<close>) or, in \<open>loadProject\<close>, a project object that is not the
  current one, so each of them makes a dependency of the auto-save effect a new reference:
  \<^item> \<open>handleMove\<close> calls \<open>setMarkers\<close> in its relocation branch;
  \<^item> \<open>handleCanvasClick\<close> calls it when it creates a marker;
  \<^item> \<open>finishRelocation\<close> calls it when it cancels and has found the original;
  \<^item> \<open>saveMarkerDetails\<close> and \<open>deleteMarker\<close> always call it;
  \<^item> \<open>loadProject\<close> sets all three.
  No other handler sets one of the three.\<close>

fun setsDependency :: "event \<Rightarrow> state \<Rightarrow> bool" where
  "setsDependency (PointerMove rect e) s =
     (currentProject s \<noteq> None \<and> relocatingMarker s \<noteq> None \<and> \<not> isPanning s)"
| "setsDependency (CanvasClick rect e now) s =
     (currentProject s \<noteq> None \<and> relocatingMarker s = None \<and> tool s = marker_tool
      \<and> (case getPointerPos s rect e of
            Inl err \<Rightarrow> False
          | Inr pos \<Rightarrow> hitMarker (markers s) pos = None))"
| "setsDependency (FinishRelocation save) s =
     (case (if save then None else relocatingMarker s) of
        None \<Rightarrow> False
      | Some rm \<Rightarrow>
          (case originalMarker s rm of
             Inr (Some original) \<Rightarrow> True
           | _ \<Rightarrow> False))"
| "setsDependency SaveMarkerDetails s = True"
| "setsDependency DeleteMarker s = True"
| "setsDependency (LoadProject p) s = True"
| "setsDependency _ s = False"

text \<open>One event: the handler, then the auto-save effect of the following render.\<close>

definition step :: "event \<Rightarrow> state \<Rightarrow> error + state" where
  "step ev s =
     (case handler ev s of
        Inl err \<Rightarrow> Inl err
      | Inr s' \<Rightarrow> Inr (autoSave (setsDependency ev s) s'))"

fun run :: "event list \<Rightarrow> state \<Rightarrow> error + state" where
  "run [] s = Inr s"
| "run (ev # evs) s = (case step ev s of Inl err \<Rightarrow> Inl err | Inr s' \<Rightarrow> run evs s')"

section \<open>Notions of the specification\<close>

text \<open>The Euclidean distance between a marker and a point of the image.\<close>

definition euclid :: "marker \<Rightarrow> pointer_pos \<Rightarrow> real" where
  "euclid m pos = sqrt ((marker_x m - pos_x pos)\<^sup>2 + (marker_y m - pos_y pos)\<^sup>2)"

text \<open>The states of the relocation state machine of the specification, read off the two
  variables \<open>isPanning\<close> and \<open>relocatingMarker\<close> that the component keeps instead: it pans
  while \<open>isPanning\<close> is set, it drags the marker pending relocation otherwise, and it is
  idle when neither holds.\<close>

datatype gesture = Idle | Panning | Dragging int

definition gestureState :: "state \<Rightarrow> gesture" where
  "gestureState s =
     (if isPanning s then Panning
      else case relocatingMarker s of Some rm \<Rightarrow> Dragging (marker_id rm) | None \<Rightarrow> Idle)"

text \<open>The guard of the renderer, \<open>!img || !img.complete || !imageLoaded\<close>, negated.\<close>

definition imageReady :: "state \<Rightarrow> bool" where
  "imageReady s =
     (case imageRef s of None \<Rightarrow> False | Some img \<Rightarrow> complete img \<and> imageLoaded s)"

definition positions :: "state \<Rightarrow> (real \<times> real) list" where
  "positions s = map (\<lambda>m. (marker_x m, marker_y m)) (markers s)"

section \<open>A small session\<close>

text \<open>The initial values of the state variables (\<open>useState\<close>) and references.\<close>

definition initialState :: state where
  "initialState =
     \<lparr> projects = [], currentProject = None, markers = [], tool = marker_tool,
       selectedItem = None, showNoteDialog = False, showDeleteMarkerConfirm = False,
       noteText = [], noteDescription = [], notePhotos = [], markerJournalEntries = [],
       linkedPlant_edit = None, newJournalText = [], newJournalPhotos = [],
       globalJournalEntries = [], scale = 1, pan = \<lparr> pt_x = 0, pt_y = 0 \<rparr>,
       isPanning = False, panStart = \<lparr> pt_x = 0, pt_y = 0 \<rparr>,
       relocatingMarker = None, imageLoaded = False, canvasRef = None, imageRef = None \<rparr>"

definition exampleProject :: project where
  "exampleProject =
     \<lparr> project_id = 1, project_name = ''Garden'', project_image = ''garden.png'',
       project_markers = Some [], project_globalJournalEntries = Some [] \<rparr>"

text \<open>A canvas shown at its intrinsic size, with its corner at the origin of the viewport.\<close>

definition exampleRect :: dom_rect where
  "exampleRect = \<lparr> rect_left = 0, rect_top = 0, rect_width = 200, rect_height = 200 \<rparr>"

text \<open>One project with no marker, loaded and shown, its image of 200 by 200 pixels decoded.\<close>

definition exampleState :: state where
  "exampleState =
     imageOnLoad (loadProject exampleProject
       (initialState\<lparr> projects := [exampleProject],
          canvasRef := Some \<lparr> width = 300, height = 150, style_width = 300,
                               style_height = 150, drawn = [] \<rparr>,
          imageRef := Some \<lparr> complete = True, naturalWidth = 200, naturalHeight = 200,
                              img_width = 200, img_height = 200 \<rparr> \<rparr>))"

text \<open>The marker that a click at \<open>(50, 50)\<close> places when the clock reads 1000.\<close>

definition placedMarker :: marker where
  "placedMarker =
     \<lparr> marker_id = 1000, marker_x = 50, marker_y = 50, label = ''Plant 1'',
       description = [], photos = [], journalEntries = [], linkedPlant = None,
       color = ''#10b981'' \<rparr>"

text \<open>The state once that marker has been placed and \<open>Relocate\<close> chosen in its dialog.\<close>

definition relocatingState :: state where
  "relocatingState =
     exampleState\<lparr> projects := [exampleProject\<lparr> project_markers := Some [placedMarker] \<rparr>],
                    markers := [placedMarker],
                    noteText := ''Plant 1'',
                    relocatingMarker := Some placedMarker \<rparr>"

text \<open>Place a marker at \<open>(50, 50)\<close>, start its relocation, drag it through three points,
  cancel.\<close>

definition cancelTrace :: "event list" where
  "cancelTrace =
     [ CanvasClick exampleRect (MouseEvent 50 50) 1000,
       StartRelocation,
       PointerMove exampleRect (MouseEvent 60 60),
       PointerMove exampleRect (MouseEvent 70 40),
       PointerMove exampleRect (MouseEvent 55 55),
       FinishRelocation False ]"

text \<open>Place a marker, start its relocation, pick the same marker in the sidebar list and
  delete it from the dialog that opens.\<close>

definition deleteTrace :: "event list" where
  "deleteTrace =
     [ CanvasClick exampleRect (MouseEvent 50 50) 1000,
       StartRelocation,
       SidebarSelect placedMarker,
       DeleteMarker ]"

text \<open>Place a marker, save its dialog, place another one far from it while the clock
  reads the same millisecond.\<close>

definition collideTrace :: "event list" where
  "collideTrace =
     [ CanvasClick exampleRect (MouseEvent 50 50) 1000,
       SaveMarkerDetails,
       CanvasClick exampleRect (MouseEvent 150 150) 1000 ]"

text \<open>Two markers whose hit circles overlap: A at \<open>(100, 100)\<close>, inserted before B at
  \<open>(105, 105)\<close>.\<close>

definition markerA :: marker where
  "markerA = placedMarker\<lparr> marker_id := 1, marker_x := 100, marker_y := 100, label := ''A'' \<rparr>"

definition markerB :: marker where
  "markerB = placedMarker\<lparr> marker_id := 2, marker_x := 105, marker_y := 105, label := ''B'' \<rparr>"

definition imagePoint :: "real \<Rightarrow> real \<Rightarrow> pointer_pos" where
  "imagePoint px py = \<lparr> pos_x = px, pos_y = py, pos_clientX = px, pos_clientY = py \<rparr>"

section \<open>Evaluation\<close>

lemmas model_defs =
  handleStart_def handleMove_def handleEnd_def handleCanvasClick_def openMarkerDialog_def
  startRelocation_def finishRelocation_def saveMarkerDetails_def deleteMarker_def
  loadProject_def handleZoom_def saveResponse_def startPan_def originalMarker_def
  getPointerPos_def hitMarker_def newMarker_def saveData_def autoSave_def imageOnLoad_def
  step_def

lemmas example_defs =
  initialState_def exampleProject_def exampleRect_def exampleState_def placedMarker_def
  relocatingState_def markerA_def markerB_def imagePoint_def

declare decimal.simps [simp del]

lemma decimal_1 [simp]: "decimal 1 = ''1''" "decimal (Suc 0) = ''1''"
  by code_simp+

lemma decimal_2 [simp]: "decimal 2 = ''2''" "decimal (Suc (Suc 0)) = ''2''"
  by code_simp+

text \<open>The two thresholds, without the square root.\<close>

lemma sqrt_less_30: "sqrt x < 30 \<longleftrightarrow> x < 900"
proof -
  have "sqrt 900 = 30" by (rule real_sqrt_unique) simp_all
  then show ?thesis by (metis real_sqrt_less_iff)
qed

lemma sqrt_gt_50: "sqrt x > 50 \<longleftrightarrow> x > 2500"
proof -
  have "sqrt 2500 = 50" by (rule real_sqrt_unique) simp_all
  then show ?thesis by (metis real_sqrt_less_iff)
qed

lemma hitMarker_code [code]:
  "hitMarker ms pos =
     find (\<lambda>m. let dx = marker_x m - pos_x pos; dy = marker_y m - pos_y pos
                in dx * dx + dy * dy < 900) ms"
  by (simp add: hitMarker_def sqrt_less_30)

lemma handleStart_code [code]:
  "handleStart s rect e =
     (if currentProject s = None then Inr s
      else case getPointerPos s rect e of
        Inl err \<Rightarrow> Inl err
      | Inr pos \<Rightarrow>
          (case relocatingMarker s of
             Some rm \<Rightarrow>
               let dx = marker_x rm - pos_x pos;
                   dy = marker_y rm - pos_y pos
               in if dx * dx + dy * dy > 2500 then Inr (startPan s pos) else Inr s
           | None \<Rightarrow>
               if tool s = pan_tool then Inr (startPan s pos) else Inr s))"
  by (simp add: handleStart_def sqrt_gt_50 Let_def split: sum.splits option.splits)

lemma euclid_code [code]:
  "euclid m pos = sqrt ((marker_x m - pos_x pos) * (marker_x m - pos_x pos)
                        + (marker_y m - pos_y pos) * (marker_y m - pos_y pos))"
  by (simp add: euclid_def power2_eq_square)

text \<open>The session reaches the state in which the placed marker is pending relocation.\<close>

lemma relocatingState_reached:
  "run [CanvasClick exampleRect (MouseEvent 50 50) 1000, StartRelocation] exampleState
     = Inr relocatingState"
  by (simp add: model_defs example_defs Let_def)

section \<open>Coordinate transform\<close>

text \<open>
  Claim C7. \<open>getPointerPos\<close> maps the device point \<open>(cx, cy)\<close> of an event, for a
  canvas of intrinsic size \<open>width \<times> height\<close> displayed in a rectangle with non-zero
  sides, to \<open>((cx - left) * width / rect_width, (cy - top) * height / rect_height)\<close>. The
  result depends on the event, the rectangle and the intrinsic size only: the zoom scale
  and the pan offset of the view are not read. It is linear in the scale ratio: a
  configuration with the same corner whose two ratios of intrinsic to displayed size are
  twice as large reports twice the offset.
\<close>

theorem getPointerPos_scales_linearly:
  assumes "clientPoint e = Inr (cx, cy)" and "canvasRef s = Some cv"
    and "rect_width rect \<noteq> 0" and "rect_height rect \<noteq> 0"
  shows "getPointerPos s rect e =
           Inr \<lparr> pos_x = (cx - rect_left rect) * (real (width cv) / rect_width rect),
                 pos_y = (cy - rect_top rect) * (real (height cv) / rect_height rect),
                 pos_clientX = cx, pos_clientY = cy \<rparr>
       \<and> getPointerPos (s\<lparr> scale := k, pan := q \<rparr>) rect e = getPointerPos s rect e
       \<and> (\<forall>s2 cv2 r2.
             canvasRef s2 = Some cv2 \<and> rect_width r2 \<noteq> 0 \<and> rect_height r2 \<noteq> 0
             \<and> rect_left r2 = rect_left rect \<and> rect_top r2 = rect_top rect
             \<and> real (width cv2) / rect_width r2 = 2 * (real (width cv) / rect_width rect)
             \<and> real (height cv2) / rect_height r2 = 2 * (real (height cv) / rect_height rect)
           \<longrightarrow> (\<exists>p p2. getPointerPos s rect e = Inr p \<and> getPointerPos s2 r2 e = Inr p2
                  \<and> pos_x p2 = 2 * pos_x p \<and> pos_y p2 = 2 * pos_y p))"
  using assms by (simp add: getPointerPos_def Let_def)

text \<open>A canvas of 200 by 200 pixels shown in a box of 100 by 50, then in a box of 50 by
  25: the point \<open>(60, 45)\<close> of the viewport is the image point \<open>(100, 100)\<close>, then
  \<open>(200, 200)\<close>.\<close>

theorem getPointerPos_scales_linearly_witness:
  "getPointerPos exampleState
       \<lparr> rect_left = 10, rect_top = 20, rect_width = 100, rect_height = 50 \<rparr> (MouseEvent 60 45)
     = Inr \<lparr> pos_x = 100, pos_y = 100, pos_clientX = 60, pos_clientY = 45 \<rparr>
   \<and> (\<exists>p2. getPointerPos exampleState
              \<lparr> rect_left = 10, rect_top = 20, rect_width = 50, rect_height = 25 \<rparr> (MouseEvent 60 45)
            = Inr p2 \<and> pos_x p2 = 200 \<and> pos_y p2 = 200)"
proof -
  let ?cv = "\<lparr> width = 200, height = 200, style_width = 200, style_height = 200, drawn = [] \<rparr>"
  let ?r = "\<lparr> rect_left = 10, rect_top = 20, rect_width = 100, rect_height = 50 \<rparr>"
  let ?r2 = "\<lparr> rect_left = 10, rect_top = 20, rect_width = 50, rect_height = 25 \<rparr>"
  have e: "clientPoint (MouseEvent 60 45) = Inr (60, 45)" by simp
  have c: "canvasRef exampleState = Some ?cv"
    by (simp add: example_defs imageOnLoad_def loadProject_def)
  have w: "rect_width ?r \<noteq> 0" and h: "rect_height ?r \<noteq> 0" by simp_all
  note t = getPointerPos_scales_linearly [OF e c w h]
  from t have first: "getPointerPos exampleState ?r (MouseEvent 60 45)
      = Inr \<lparr> pos_x = 100, pos_y = 100, pos_clientX = 60, pos_clientY = 45 \<rparr>"
    by simp
  note lin = t [THEN conjunct2, THEN conjunct2, rule_format, of exampleState ?cv ?r2]
  have "\<exists>p p2. getPointerPos exampleState ?r (MouseEvent 60 45) = Inr p
      \<and> getPointerPos exampleState ?r2 (MouseEvent 60 45) = Inr p2
      \<and> pos_x p2 = 2 * pos_x p \<and> pos_y p2 = 2 * pos_y p"
    by (rule lin) (simp add: c)
  with first show ?thesis by auto
qed

section \<open>Hit test\<close>

text \<open>
  Claim C2. The hit test of a click returns the first marker, in the order of the
  collection, whose Euclidean distance to the query point is strictly less than 30; it
  returns no marker exactly when no marker lies within that radius. The choice goes by
  position in the collection, not by distance. When a marker is hit, a project is open,
  no relocation is pending and the tool is not the pan tool, the click opens the dialog of
  that marker.
\<close>

theorem hitMarker_first_within_radius:
  "(hitMarker ms pos = None \<longleftrightarrow> (\<forall>m \<in> set ms. \<not> euclid m pos < 30))
   \<and> (hitMarker ms pos = Some m \<longleftrightarrow>
        (\<exists>i < length ms. ms ! i = m \<and> euclid m pos < 30
            \<and> (\<forall>j < i. \<not> euclid (ms ! j) pos < 30)))
   \<and> (currentProject s \<noteq> None \<and> relocatingMarker s = None \<and> tool s \<noteq> pan_tool
        \<and> getPointerPos s rect e = Inr pos \<and> hitMarker (markers s) pos = Some m
       \<longrightarrow> handleCanvasClick s rect e now = Inr (openMarkerDialog m s))"
proof (intro conjI)
  show "hitMarker ms pos = None \<longleftrightarrow> (\<forall>m \<in> set ms. \<not> euclid m pos < 30)"
    by (auto simp add: hitMarker_def euclid_def find_None_iff power2_eq_square Let_def)
  show "hitMarker ms pos = Some m \<longleftrightarrow>
        (\<exists>i < length ms. ms ! i = m \<and> euclid m pos < 30
            \<and> (\<forall>j < i. \<not> euclid (ms ! j) pos < 30))"
    by (simp add: hitMarker_def euclid_def find_Some_iff power2_eq_square Let_def) blast
  show "currentProject s \<noteq> None \<and> relocatingMarker s = None \<and> tool s \<noteq> pan_tool
        \<and> getPointerPos s rect e = Inr pos \<and> hitMarker (markers s) pos = Some m
       \<longrightarrow> handleCanvasClick s rect e now = Inr (openMarkerDialog m s)"
    by (simp add: handleCanvasClick_def)
qed

text \<open>With A at \<open>(100, 100)\<close> inserted before B at \<open>(105, 105)\<close>, the query
  \<open>(102, 102)\<close> returns A; so does the query \<open>(104, 104)\<close>, which is nearer to B.\<close>

theorem hitMarker_first_within_radius_witness:
  "hitMarker [markerA, markerB] (imagePoint 102 102) = Some markerA
   \<and> hitMarker [markerA, markerB] (imagePoint 104 104) = Some markerA
   \<and> euclid markerB (imagePoint 104 104) < euclid markerA (imagePoint 104 104)
   \<and> hitMarker [markerA, markerB] (imagePoint 140 140) = None"
proof -
  note t = hitMarker_first_within_radius
  have a1: "euclid markerA (imagePoint 102 102) < 30"
    and a2: "euclid markerA (imagePoint 104 104) < 30"
    by (simp_all add: euclid_code sqrt_less_30 example_defs)
  have "\<exists>i < length [markerA, markerB]. [markerA, markerB] ! i = markerA
          \<and> euclid markerA (imagePoint 102 102) < 30
          \<and> (\<forall>j < i. \<not> euclid ([markerA, markerB] ! j) (imagePoint 102 102) < 30)"
    using a1 by (intro exI [of _ 0]) simp
  then have h1: "hitMarker [markerA, markerB] (imagePoint 102 102) = Some markerA"
    using t [of "[markerA, markerB]" "imagePoint 102 102" markerA] by blast
  have "\<exists>i < length [markerA, markerB]. [markerA, markerB] ! i = markerA
          \<and> euclid markerA (imagePoint 104 104) < 30
          \<and> (\<forall>j < i. \<not> euclid ([markerA, markerB] ! j) (imagePoint 104 104) < 30)"
    using a2 by (intro exI [of _ 0]) simp
  then have h2: "hitMarker [markerA, markerB] (imagePoint 104 104) = Some markerA"
    using t [of "[markerA, markerB]" "imagePoint 104 104" markerA] by blast
  have h3: "euclid markerB (imagePoint 104 104) < euclid markerA (imagePoint 104 104)"
    by (simp add: euclid_code example_defs)
  have "\<forall>m \<in> set [markerA, markerB]. \<not> euclid m (imagePoint 140 140) < 30"
    by (simp add: euclid_code sqrt_less_30 example_defs)
  then have h4: "hitMarker [markerA, markerB] (imagePoint 140 140) = None"
    using t [of "[markerA, markerB]" "imagePoint 140 140"] by blast
  from h1 h2 h3 h4 show ?thesis by simp
qed

section \<open>Renderer\<close>

text \<open>
  Claim C6. For a marker at \<open>(x, y)\<close> whose label has the measured width \<open>w\<close>, on a
  canvas of width \<open>W\<close>, the label box is \<open>w + 12\<close> wide and 26 high and is anchored at
  \<open>(x + 14, y - 13)\<close>, except that the anchor is \<open>(x - 14 - (w + 12), y - 13)\<close> when
  \<open>x + 14 + (w + 12) > W\<close>. This is the rounded rectangle the renderer fills for the
  marker. With \<open>W = 200\<close>, \<open>x = 190\<close> and any width \<open>w \<ge> 0\<close>, the anchor is
  \<open>164 - w\<close>, left of 190, and not 204.
\<close>

theorem labelBox_flips_at_right_edge:
  "labelBox w W m =
     (if marker_x m + 14 + (w + 12) > real W then marker_x m - 14 - (w + 12)
      else marker_x m + 14,
      marker_y m - 13, w + 12, 26)
   \<and> drawMarker measureText W relocating m ! 2 =
       (case labelBox (measureText (label m)) W m of
          (labelX, labelY, boxWidth, boxHeight) \<Rightarrow>
            FillRoundRect labelX labelY boxWidth boxHeight 6 ''rgba(0, 0, 0, 0.85)'')
   \<and> (marker_x m = 190 \<and> W = 200 \<and> 0 \<le> w
       \<longrightarrow> fst (labelBox w W m) = 164 - w \<and> fst (labelBox w W m) < 190
           \<and> fst (labelBox w W m) \<noteq> 204)"
proof (intro conjI)
  show "labelBox w W m =
     (if marker_x m + 14 + (w + 12) > real W then marker_x m - 14 - (w + 12)
      else marker_x m + 14,
      marker_y m - 13, w + 12, 26)"
    by (simp add: labelBox_def Let_def)
  show "drawMarker measureText W relocating m ! 2 =
       (case labelBox (measureText (label m)) W m of
          (labelX, labelY, boxWidth, boxHeight) \<Rightarrow>
            FillRoundRect labelX labelY boxWidth boxHeight 6 ''rgba(0, 0, 0, 0.85)'')"
    by (simp add: drawMarker_def Let_def split: prod.splits)
  show "marker_x m = 190 \<and> W = 200 \<and> 0 \<le> w
       \<longrightarrow> fst (labelBox w W m) = 164 - w \<and> fst (labelBox w W m) < 190
           \<and> fst (labelBox w W m) \<noteq> 204"
    by (simp add: labelBox_def Let_def)
qed

text \<open>Image width 200, marker at \<open>x = 190\<close>, measured label width 50: the box is
  anchored at \<open>x = 114\<close>.\<close>

theorem labelBox_flips_at_right_edge_witness:
  "labelBox 50 200 (placedMarker\<lparr> marker_x := 190, label := ''Tomato'' \<rparr>) = (114, 37, 62, 26)
   \<and> fst (labelBox 50 200 (placedMarker\<lparr> marker_x := 190, label := ''Tomato'' \<rparr>)) < 190"
  using labelBox_flips_at_right_edge
    [of 50 200 "placedMarker\<lparr> marker_x := 190, label := ''Tomato'' \<rparr>"]
  by (simp add: placedMarker_def)

lemma render_not_ready:
  "imageRef s = None \<or> (\<exists>img. imageRef s = Some img \<and> \<not> complete img) \<or> \<not> imageLoaded s
     \<Longrightarrow> render measureText s = s"
  by (auto simp add: render_def split: option.splits)

lemma render_changes_only_when_ready:
  assumes "render measureText s \<noteq> s"
  shows "imageReady s"
proof (rule ccontr)
  assume "\<not> imageReady s"
  then have "imageRef s = None \<or> (\<exists>img. imageRef s = Some img \<and> \<not> complete img)
      \<or> \<not> imageLoaded s"
    by (cases "imageRef s") (simp_all add: imageReady_def)
  then have "render measureText s = s" by (rule render_not_ready)
  with assms show False by simp
qed

lemma render_ready:
  "imageReady s \<Longrightarrow> currentProject s = Some cp \<Longrightarrow> canvasRef s = Some cv
     \<Longrightarrow> imageRef s = Some img
     \<Longrightarrow> render measureText s =
            s\<lparr> canvasRef :=
                 Some (cv\<lparr> width := naturalWidth img, height := naturalHeight img,
                           drawn := ClearRect 0 0 (real (naturalWidth img)) (real (naturalHeight img))
                                    # concat (map (drawMarker measureText (naturalWidth img)
                                                     (relocatingMarker s)) (markers s)) \<rparr>) \<rparr>"
  by (simp add: render_def imageReady_def Let_def)

text \<open>
  Claim C8. A render attempted while the image is not ready (no image element, an image
  that is not complete, or the flag \<open>imageLoaded\<close> unset) changes nothing: the
  canvas keeps its size and what is drawn on it, and every other part of the state is as
  before; the renderer has no failing branch. The canvas is redrawn only when the image is
  ready, and then it is: it is resized to the natural size of the image, cleared, and the
  markers are drawn in collection order.
\<close>

theorem render_deferred_until_imageReady:
  "((imageRef s = None \<or> (\<exists>img. imageRef s = Some img \<and> \<not> complete img) \<or> \<not> imageLoaded s)
      \<longrightarrow> render measureText s = s)
   \<and> (render measureText s \<noteq> s \<longrightarrow> imageReady s)
   \<and> (imageReady s \<and> currentProject s = Some cp \<and> canvasRef s = Some cv \<and> imageRef s = Some img
      \<longrightarrow> render measureText s =
            s\<lparr> canvasRef :=
                 Some (cv\<lparr> width := naturalWidth img, height := naturalHeight img,
                           drawn := ClearRect 0 0 (real (naturalWidth img)) (real (naturalHeight img))
                                    # concat (map (drawMarker measureText (naturalWidth img)
                                                     (relocatingMarker s)) (markers s)) \<rparr>) \<rparr>)"
  using render_not_ready [of s measureText] render_changes_only_when_ready [of measureText s]
    render_ready [of s cp cv img measureText]
  by blast

text \<open>After a switch of project the image is not loaded, and a render leaves the state,
  with its canvas, as it is.\<close>

theorem render_deferred_until_imageReady_witness:
  "\<not> imageLoaded (loadProject exampleProject relocatingState)
   \<and> render (\<lambda>l. 9 * real (length l)) (loadProject exampleProject relocatingState)
       = loadProject exampleProject relocatingState"
proof -
  have n: "\<not> imageLoaded (loadProject exampleProject relocatingState)"
    by (simp add: loadProject_def)
  with render_deferred_until_imageReady
    [of "loadProject exampleProject relocatingState" "\<lambda>l. 9 * real (length l)"]
  show ?thesis by blast
qed

section \<open>Project lifecycle\<close>

lemma autoSave_keeps:
  "markers (autoSave c s') = markers s'"
  "globalJournalEntries (autoSave c s') = globalJournalEntries s'"
  "currentProject (autoSave c s') = currentProject s'"
  "scale (autoSave c s') = scale s'"
  "pan (autoSave c s') = pan s'"
  "relocatingMarker (autoSave c s') = relocatingMarker s'"
  "imageLoaded (autoSave c s') = imageLoaded s'"
  "selectedItem (autoSave c s') = selectedItem s'"
  "isPanning (autoSave c s') = isPanning s'"
  "canvasRef (autoSave c s') = canvasRef s'"
  by (simp_all add: autoSave_def saveData_def split: option.splits)

lemma handler_keeps_image_unloaded:
  "handler ev s = Inr s' \<Longrightarrow> ev \<noteq> ImageOnLoad \<Longrightarrow> \<not> imageLoaded s \<Longrightarrow> \<not> imageLoaded s'"
  by (cases ev)
    (auto simp add: handleStart_def handleMove_def handleEnd_def handleCanvasClick_def
      openMarkerDialog_def startRelocation_def finishRelocation_def saveMarkerDetails_def
      deleteMarker_def loadProject_def handleZoom_def saveResponse_def startPan_def Let_def
      split: if_splits sum.splits option.splits)

text \<open>
  Claim C5. Switching to a project \<open>p\<close> (\<open>loadProject\<close>, followed by the auto-save of the
  render it causes) leaves in the marker store exactly the markers of \<open>p\<close> and in the
  journal exactly the journal of \<open>p\<close> (nothing when \<open>p\<close> has none), makes \<open>p\<close> the
  current project, sets the view to scale 1 and pan \<open>(0, 0)\<close>, clears the pending
  relocation and unsets \<open>imageLoaded\<close>. The flag then stays unset under every event
  except the \<open>onLoad\<close> of the image element, which sets it when canvas and image exist.
\<close>

theorem loadProject_replaces_session:
  "(\<exists>s'. step (LoadProject p) s = Inr s'
       \<and> markers s' = (case project_markers p of None \<Rightarrow> [] | Some ms \<Rightarrow> ms)
       \<and> globalJournalEntries s' =
           (case project_globalJournalEntries p of None \<Rightarrow> [] | Some js \<Rightarrow> js)
       \<and> currentProject s' = Some p
       \<and> scale s' = 1 \<and> pan s' = \<lparr> pt_x = 0, pt_y = 0 \<rparr>
       \<and> relocatingMarker s' = None
       \<and> \<not> imageLoaded s')
   \<and> (\<forall>ev s1 s2. \<not> imageLoaded s1 \<and> ev \<noteq> ImageOnLoad \<and> step ev s1 = Inr s2
         \<longrightarrow> \<not> imageLoaded s2)
   \<and> (canvasRef s \<noteq> None \<and> imageRef s \<noteq> None \<longrightarrow> imageLoaded (imageOnLoad s))"
proof (intro conjI allI impI)
  show "\<exists>s'. step (LoadProject p) s = Inr s'
       \<and> markers s' = (case project_markers p of None \<Rightarrow> [] | Some ms \<Rightarrow> ms)
       \<and> globalJournalEntries s' =
           (case project_globalJournalEntries p of None \<Rightarrow> [] | Some js \<Rightarrow> js)
       \<and> currentProject s' = Some p
       \<and> scale s' = 1 \<and> pan s' = \<lparr> pt_x = 0, pt_y = 0 \<rparr>
       \<and> relocatingMarker s' = None
       \<and> \<not> imageLoaded s'"
    by (simp add: step_def autoSave_keeps) (simp add: loadProject_def)
next
  fix ev s1 s2
  assume a: "\<not> imageLoaded s1 \<and> ev \<noteq> ImageOnLoad \<and> step ev s1 = Inr s2"
  then obtain s' where h: "handler ev s1 = Inr s'"
    and s2: "s2 = autoSave (setsDependency ev s1) s'"
    by (auto simp add: step_def split: sum.splits)
  from h a have "\<not> imageLoaded s'" by (blast dest: handler_keeps_image_unloaded)
  with s2 show "\<not> imageLoaded s2" by (simp add: autoSave_keeps)
next
  assume "canvasRef s \<noteq> None \<and> imageRef s \<noteq> None"
  then show "imageLoaded (imageOnLoad s)"
    by (auto simp add: imageOnLoad_def)
qed

text \<open>Switching from the project with one marker pending relocation to a project without
  markers: the store is empty, the view is the identity and nothing is pending.\<close>

theorem loadProject_replaces_session_witness:
  "\<exists>s'. step (LoadProject (exampleProject\<lparr> project_id := 2 \<rparr>)) relocatingState = Inr s'
     \<and> markers s' = [] \<and> globalJournalEntries s' = []
     \<and> scale s' = 1 \<and> pan s' = \<lparr> pt_x = 0, pt_y = 0 \<rparr>
     \<and> relocatingMarker s' = None \<and> \<not> imageLoaded s'"
  using loadProject_replaces_session [of "exampleProject\<lparr> project_id := 2 \<rparr>" relocatingState]
  by (auto simp add: exampleProject_def)


section \<open>Relocation\<close>

lemma getPointerPos_same_canvas:
  "canvasRef s' = canvasRef s \<Longrightarrow> getPointerPos s' rect e = getPointerPos s rect e"
  by (simp add: getPointerPos_def split: sum.splits prod.splits)

lemma euclid_le_50: "euclid rm pos \<le> 50 \<longleftrightarrow>
    \<not> sqrt ((marker_x rm - pos_x pos) * (marker_x rm - pos_x pos)
            + (marker_y rm - pos_y pos) * (marker_y rm - pos_y pos)) > 50"
  by (simp add: euclid_code not_less)

lemma handleStart_near:
  assumes "currentProject s \<noteq> None" and "relocatingMarker s = Some rm"
    and "getPointerPos s rect e = Inr pos" and "euclid rm pos \<le> 50"
  shows "handleStart s rect e = Inr s"
  using assms by (auto simp add: handleStart_def Let_def euclid_le_50)

lemma handleStart_far:
  assumes "currentProject s \<noteq> None" and "relocatingMarker s = Some rm"
    and "getPointerPos s rect e = Inr pos" and "euclid rm pos > 50"
  shows "handleStart s rect e = Inr (startPan s pos)"
  using assms by (auto simp add: handleStart_def Let_def euclid_code)

lemma handleMove_dragging:
  assumes "currentProject s \<noteq> None" and "relocatingMarker s = Some rm" and "\<not> isPanning s"
    and "getPointerPos s rect e = Inr pos"
  shows "handleMove s rect e =
           Inr (s\<lparr> relocatingMarker := Some (rm\<lparr> marker_x := pos_x pos, marker_y := pos_y pos \<rparr>),
                  markers := map (\<lambda>m. if marker_id m = marker_id rm
                                       then rm\<lparr> marker_x := pos_x pos, marker_y := pos_y pos \<rparr>
                                       else m) (markers s) \<rparr>)"
  using assms by (auto simp add: handleMove_def Let_def)

lemma handleMove_panning:
  assumes "currentProject s \<noteq> None" and "isPanning s"
    and "getPointerPos s rect e = Inr pos"
  shows "handleMove s rect e =
           Inr (s\<lparr> pan := \<lparr> pt_x = pos_clientX pos - pt_x (panStart s),
                             pt_y = pos_clientY pos - pt_y (panStart s) \<rparr> \<rparr>)"
  using assms by (auto simp add: handleMove_def)

text \<open>
  Claim C4. With a marker pending relocation and no pan in progress, a pointer-down whose
  image point is within 50 pixels of the position held for that marker leaves the machine
  dragging that marker: the next pointer-move sets the marker's coordinates to the
  pointer's image point and leaves the pan offset alone. A pointer-down strictly farther
  than 50 pixels starts a pan: the next pointer-move sets the pan offset, by the
  displacement of the pointer since the pointer-down, and changes neither the markers nor
  the marker pending relocation.
\<close>

theorem handleStart_drags_near_pans_far:
  assumes "currentProject s \<noteq> None" and "relocatingMarker s = Some rm" and "\<not> isPanning s"
    and "getPointerPos s rect e = Inr pos"
    and "getPointerPos s rect2 e2 = Inr pos2"
  shows "(euclid rm pos \<le> 50 \<longrightarrow>
            (\<exists>s1 s2. handleStart s rect e = Inr s1
               \<and> gestureState s1 = Dragging (marker_id rm)
               \<and> handleMove s1 rect2 e2 = Inr s2
               \<and> relocatingMarker s2 = Some (rm\<lparr> marker_x := pos_x pos2, marker_y := pos_y pos2 \<rparr>)
               \<and> markers s2 =
                   map (\<lambda>m. if marker_id m = marker_id rm
                             then rm\<lparr> marker_x := pos_x pos2, marker_y := pos_y pos2 \<rparr> else m)
                       (markers s)
               \<and> pan s2 = pan s))
       \<and> (euclid rm pos > 50 \<longrightarrow>
            (\<exists>s1 s2. handleStart s rect e = Inr s1
               \<and> gestureState s1 = Panning
               \<and> handleMove s1 rect2 e2 = Inr s2
               \<and> pan s2 = \<lparr> pt_x = pos_clientX pos2 - (pos_clientX pos - pt_x (pan s)),
                              pt_y = pos_clientY pos2 - (pos_clientY pos - pt_y (pan s)) \<rparr>
               \<and> markers s2 = markers s
               \<and> relocatingMarker s2 = Some rm))"
proof (intro conjI impI)
  assume near: "euclid rm pos \<le> 50"
  have s1: "handleStart s rect e = Inr s"
    using assms(1,2,4) near by (rule handleStart_near)
  have g: "gestureState s = Dragging (marker_id rm)"
    using assms(2,3) by (simp add: gestureState_def)
  note mv = handleMove_dragging [OF assms(1,2,3,5)]
  show "\<exists>s1 s2. handleStart s rect e = Inr s1
               \<and> gestureState s1 = Dragging (marker_id rm)
               \<and> handleMove s1 rect2 e2 = Inr s2
               \<and> relocatingMarker s2 = Some (rm\<lparr> marker_x := pos_x pos2, marker_y := pos_y pos2 \<rparr>)
               \<and> markers s2 =
                   map (\<lambda>m. if marker_id m = marker_id rm
                             then rm\<lparr> marker_x := pos_x pos2, marker_y := pos_y pos2 \<rparr> else m)
                       (markers s)
               \<and> pan s2 = pan s"
    by (intro exI conjI, rule s1, rule g, rule mv) simp_all
next
  assume far: "euclid rm pos > 50"
  let ?s1 = "startPan s pos"
  have s1: "handleStart s rect e = Inr ?s1"
    using assms(1,2,4) far by (rule handleStart_far)
  have g: "gestureState ?s1 = Panning"
    by (simp add: gestureState_def startPan_def)
  have cp: "currentProject ?s1 \<noteq> None" and ip: "isPanning ?s1"
    using assms(1) by (simp_all add: startPan_def)
  have gp: "getPointerPos ?s1 rect2 e2 = Inr pos2"
    using assms(5) getPointerPos_same_canvas [of ?s1 s rect2 e2] by (simp add: startPan_def)
  note mv = handleMove_panning [OF cp ip gp]
  show "\<exists>s1 s2. handleStart s rect e = Inr s1
               \<and> gestureState s1 = Panning
               \<and> handleMove s1 rect2 e2 = Inr s2
               \<and> pan s2 = \<lparr> pt_x = pos_clientX pos2 - (pos_clientX pos - pt_x (pan s)),
                              pt_y = pos_clientY pos2 - (pos_clientY pos - pt_y (pan s)) \<rparr>
               \<and> markers s2 = markers s
               \<and> relocatingMarker s2 = Some rm"
    by (intro exI conjI, rule s1, rule g, rule mv) (simp_all add: startPan_def assms(2))
qed

lemma relocatingState_facts:
  "currentProject relocatingState \<noteq> None"
  "relocatingMarker relocatingState = Some placedMarker"
  "\<not> isPanning relocatingState"
  "markers relocatingState = [placedMarker]"
  "pan relocatingState = \<lparr> pt_x = 0, pt_y = 0 \<rparr>"
  "selectedItem relocatingState = None"
  by (simp_all add: relocatingState_def exampleState_def initialState_def imageOnLoad_def
      loadProject_def)

lemma relocatingState_pointer:
  "getPointerPos relocatingState exampleRect (MouseEvent px py) = Inr (imagePoint px py)"
  by (simp add: relocatingState_def exampleState_def initialState_def imageOnLoad_def
      loadProject_def getPointerPos_def exampleRect_def imagePoint_def)

text \<open>The marker at \<open>(50, 50)\<close> is pending relocation. A pointer-down at \<open>(60, 60)\<close>
  followed by a move to \<open>(70, 40)\<close> puts the marker at \<open>(70, 40)\<close>; a pointer-down at
  \<open>(150, 150)\<close> followed by a move to \<open>(160, 170)\<close> pans by \<open>(10, 20)\<close> and leaves the
  marker at \<open>(50, 50)\<close>.\<close>

theorem handleStart_drags_near_pans_far_witness:
  "(\<exists>s1 s2. handleStart relocatingState exampleRect (MouseEvent 60 60) = Inr s1
       \<and> handleMove s1 exampleRect (MouseEvent 70 40) = Inr s2
       \<and> positions s2 = [(70, 40)] \<and> pan s2 = \<lparr> pt_x = 0, pt_y = 0 \<rparr>)
   \<and> (\<exists>s1 s2. handleStart relocatingState exampleRect (MouseEvent 150 150) = Inr s1
       \<and> gestureState s1 = Panning
       \<and> handleMove s1 exampleRect (MouseEvent 160 170) = Inr s2
       \<and> positions s2 = [(50, 50)] \<and> pan s2 = \<lparr> pt_x = 10, pt_y = 20 \<rparr>)"
proof -
  have near: "euclid placedMarker (imagePoint 60 60) \<le> 50"
    by (simp add: euclid_le_50 sqrt_gt_50 placedMarker_def imagePoint_def)
  have far: "euclid placedMarker (imagePoint 150 150) > 50"
    by (simp add: euclid_code sqrt_gt_50 placedMarker_def imagePoint_def)
  note n = handleStart_drags_near_pans_far
    [OF relocatingState_facts(1,2,3) relocatingState_pointer [of 60 60]
        relocatingState_pointer [of 70 40], THEN conjunct1, rule_format, OF near]
  note f = handleStart_drags_near_pans_far
    [OF relocatingState_facts(1,2,3) relocatingState_pointer [of 150 150]
        relocatingState_pointer [of 160 170], THEN conjunct2, rule_format, OF far]
  from n have first: "\<exists>s1 s2. handleStart relocatingState exampleRect (MouseEvent 60 60) = Inr s1
       \<and> handleMove s1 exampleRect (MouseEvent 70 40) = Inr s2
       \<and> positions s2 = [(70, 40)] \<and> pan s2 = \<lparr> pt_x = 0, pt_y = 0 \<rparr>"
    by (auto simp add: positions_def relocatingState_facts imagePoint_def placedMarker_def)
  from f have second: "\<exists>s1 s2. handleStart relocatingState exampleRect (MouseEvent 150 150) = Inr s1
       \<and> gestureState s1 = Panning
       \<and> handleMove s1 exampleRect (MouseEvent 160 170) = Inr s2
       \<and> positions s2 = [(50, 50)] \<and> pan s2 = \<lparr> pt_x = 10, pt_y = 20 \<rparr>"
    by (auto simp add: positions_def relocatingState_facts imagePoint_def placedMarker_def)
  from first second show ?thesis by (rule conjI)
qed

text \<open>
  Claim C10. While a project is open, a marker is pending relocation and no pan is in
  progress, every pointer-move sets the coordinates of that marker, in the marker
  collection and in the copy held for the relocation, to the image point of the pointer.
  Nothing is asked of earlier events: no pointer-down need have occurred. (Pointer-moves
  reach the handler only from the canvas, which exists only while a project is open.)
\<close>

theorem handleMove_relocates_without_pointer_down:
  assumes "currentProject s \<noteq> None" and "relocatingMarker s = Some rm" and "\<not> isPanning s"
    and "getPointerPos s rect e = Inr pos"
  shows "\<exists>s'. handleMove s rect e = Inr s'
           \<and> relocatingMarker s' = Some (rm\<lparr> marker_x := pos_x pos, marker_y := pos_y pos \<rparr>)
           \<and> markers s' =
               map (\<lambda>m. if marker_id m = marker_id rm
                         then rm\<lparr> marker_x := pos_x pos, marker_y := pos_y pos \<rparr> else m)
                   (markers s)
           \<and> (\<forall>m \<in> set (markers s'). marker_id m = marker_id rm
                 \<longrightarrow> marker_x m = pos_x pos \<and> marker_y m = pos_y pos)"
proof -
  note mv = handleMove_dragging [OF assms]
  show ?thesis
    by (intro exI conjI, rule mv) auto
qed

text \<open>Right after \<open>Relocate\<close> was chosen, with no pointer-down, a pointer-move over
  \<open>(120, 80)\<close> takes the marker from \<open>(50, 50)\<close> to \<open>(120, 80)\<close>.\<close>

theorem handleMove_relocates_without_pointer_down_witness:
  "run [CanvasClick exampleRect (MouseEvent 50 50) 1000, StartRelocation] exampleState
     = Inr relocatingState
   \<and> positions relocatingState = [(50, 50)]
   \<and> (\<exists>s'. handleMove relocatingState exampleRect (MouseEvent 120 80) = Inr s'
         \<and> positions s' = [(120, 80)])"
proof -
  from handleMove_relocates_without_pointer_down
    [OF relocatingState_facts(1,2,3) relocatingState_pointer [of 120 80]]
  have "\<exists>s'. handleMove relocatingState exampleRect (MouseEvent 120 80) = Inr s'
         \<and> positions s' = [(120, 80)]"
    by (auto simp add: positions_def relocatingState_facts imagePoint_def placedMarker_def)
  moreover have "positions relocatingState = [(50, 50)]"
    by (simp add: positions_def relocatingState_facts placedMarker_def)
  ultimately show ?thesis using relocatingState_reached by simp
qed

text \<open>
  Claim C1, on the session of the specification. A marker is placed at \<open>(50, 50)\<close>, its
  relocation is started, it is dragged through \<open>(60, 60)\<close>, \<open>(70, 40)\<close> and
  \<open>(55, 55)\<close>, and the relocation is cancelled. Every drag move changes \<open>markers\<close>, so
  the auto-save effect writes the moved marker into the project list; the cancel looks
  the marker up in that list and finds it at \<open>(55, 55)\<close>. The marker ends at
  \<open>(55, 55)\<close>, not at \<open>(50, 50)\<close>.
\<close>

theorem cancel_after_drag_keeps_dragged_position:
  "map_sum id positions (run cancelTrace exampleState) = Inr [(55, 55)]"
  by (simp add: cancelTrace_def positions_def model_defs example_defs Let_def)

section \<open>Deleting a marker\<close>

text \<open>
  Claim C3, on the session \<open>deleteTrace\<close>. A marker is placed and its relocation is
  started; while the relocation is pending, a click on the marker on the canvas is
  ignored (\<open>if (relocatingMarker) return\<close>), but the entry of the marker in the sidebar
  list opens its dialog all the same, and the marker is deleted from there. The deletion
  does not throw and removes the marker from the collection, yet \<open>deleteMarker\<close> does
  not touch \<open>relocatingMarker\<close>: the deleted marker is still the marker pending
  relocation, and the machine is in \<open>Dragging\<close> of its id, not \<open>Idle\<close>.
\<close>

theorem deleteMarker_leaves_relocation_pending:
  "handleCanvasClick relocatingState exampleRect (MouseEvent 50 50) 3000 = Inr relocatingState
   \<and> \<not> isl (run deleteTrace exampleState)
   \<and> markers (projr (run deleteTrace exampleState)) = []
   \<and> selectedItem (projr (run deleteTrace exampleState)) = None
   \<and> relocatingMarker (projr (run deleteTrace exampleState)) = Some placedMarker
   \<and> gestureState (projr (run deleteTrace exampleState)) = Dragging 1000"
proof -
  have guard: "handleCanvasClick relocatingState exampleRect (MouseEvent 50 50) 3000
      = Inr relocatingState"
    by (simp add: handleCanvasClick_def relocatingState_facts)
  have trace: "\<not> isl (run deleteTrace exampleState)
   \<and> markers (projr (run deleteTrace exampleState)) = []
   \<and> selectedItem (projr (run deleteTrace exampleState)) = None
   \<and> relocatingMarker (projr (run deleteTrace exampleState)) = Some placedMarker
   \<and> gestureState (projr (run deleteTrace exampleState)) = Dragging 1000"
    by (simp add: deleteTrace_def gestureState_def model_defs example_defs Let_def)
  from guard trace show ?thesis by (rule conjI)
qed

section \<open>Marker identifiers\<close>

lemma map_id_replace:
  "marker_id u = i \<Longrightarrow>
     map marker_id (map (\<lambda>m. if marker_id m = i then u else m) ms) = map marker_id ms"
  by (induction ms) auto

lemma map_id_edit_comp:
  "map (marker_id \<circ> (\<lambda>m. if marker_id m = i then m\<lparr> label := a, description := b,
       photos := c, journalEntries := d, linkedPlant := e \<rparr> else m)) ms = map marker_id ms"
  by (induction ms) auto

lemma saveMarkerDetails_ids:
  "saveMarkerDetails s = Inr s' \<Longrightarrow> map marker_id (markers s') = map marker_id (markers s)"
  by (auto simp add: saveMarkerDetails_def map_id_edit_comp split: option.splits if_splits)

lemma handleMove_ids:
  "handleMove s rect e = Inr s' \<Longrightarrow> map marker_id (markers s') = map marker_id (markers s)"
  by (auto simp add: handleMove_def Let_def map_id_replace
      split: if_splits sum.splits option.splits)

lemma finishRelocation_ids:
  assumes "finishRelocation save s = Inr s'"
  shows "map marker_id (markers s') = map marker_id (markers s)"
proof (cases "if save then None else relocatingMarker s")
  case None
  with assms show ?thesis by (auto simp add: finishRelocation_def)
next
  case (Some rm)
  show ?thesis
  proof (cases "originalMarker s rm")
    case (Inl err)
    with assms Some show ?thesis by (simp add: finishRelocation_def)
  next
    case (Inr found)
    show ?thesis
    proof (cases found)
      case None
      with assms Some Inr show ?thesis by (auto simp add: finishRelocation_def)
    next
      case (Some original)
      with Inr have "marker_id original = marker_id rm"
        by (auto simp add: originalMarker_def find_Some_iff
            split: option.splits if_splits)
      with assms \<open>(if save then None else relocatingMarker s) = Some rm\<close> Inr Some
      show ?thesis
        by (auto simp add: finishRelocation_def map_id_replace)
    qed
  qed
qed

lemma handleCanvasClick_markers:
  assumes "handleCanvasClick s rect e now = Inr s'"
  shows "markers s' = markers s
         \<or> (\<exists>pos. getPointerPos s rect e = Inr pos \<and> hitMarker (markers s) pos = None
               \<and> markers s' = markers s @ [newMarker now pos (markers s)])"
  using assms
  by (auto simp add: handleCanvasClick_def openMarkerDialog_def Let_def
      split: if_splits sum.splits option.splits)

lemma handler_ids_distinct:
  assumes "handler ev s = Inr s'" and "distinct (map marker_id (markers s))"
    and "\<And>rect e now. ev = CanvasClick rect e now \<Longrightarrow> now \<notin> marker_id ` set (markers s)"
    and "\<And>p ms. ev = LoadProject p \<Longrightarrow> project_markers p = Some ms
           \<Longrightarrow> distinct (map marker_id ms)"
  shows "distinct (map marker_id (markers s'))"
proof (cases ev)
  case (PointerDown rect e)
  with assms(1,2) show ?thesis
    by (auto simp add: handleStart_def startPan_def Let_def
        split: if_splits sum.splits option.splits)
next
  case (PointerMove rect e)
  with assms(1,2) show ?thesis by (simp add: handleMove_ids)
next
  case PointerEnd
  with assms(1,2) show ?thesis by (auto simp add: handleEnd_def)
next
  case (CanvasClick rect e now)
  with assms(1) have "handleCanvasClick s rect e now = Inr s'" by simp
  from handleCanvasClick_markers [OF this] assms(2) assms(3) [OF CanvasClick]
  show ?thesis by (auto simp add: newMarker_def)
next
  case (SidebarSelect m)
  with assms(1,2) show ?thesis by (auto simp add: openMarkerDialog_def)
next
  case StartRelocation
  with assms(1,2) show ?thesis by (auto simp add: startRelocation_def split: option.splits)
next
  case (FinishRelocation save)
  with assms(1,2) show ?thesis by (simp add: finishRelocation_ids)
next
  case SaveMarkerDetails
  with assms(1,2) show ?thesis by (simp add: saveMarkerDetails_ids)
next
  case DeleteMarker
  with assms(1,2) show ?thesis
    by (auto simp add: deleteMarker_def distinct_map_filter split: option.splits if_splits)
next
  case (LoadProject p)
  with assms(1) assms(4) [OF LoadProject] show ?thesis
    by (auto simp add: loadProject_def split: option.splits)
next
  case ImageOnLoad
  with assms(1,2) show ?thesis
    by (auto simp add: imageOnLoad_def split: option.splits)
next
  case (SetTool t)
  with assms(1,2) show ?thesis by auto
next
  case (Zoom delta)
  with assms(1,2) show ?thesis by (auto simp add: handleZoom_def)
next
  case ResetView
  with assms(1,2) show ?thesis by auto
next
  case (SaveResponse ps)
  with assms(1,2) show ?thesis by (auto simp add: saveResponse_def)
qed

text \<open>
  Claim C9, as the component has it. A marker creation gives the new marker the reading
  of the clock (\<open>Date.now()\<close>) as its id, and adds no other marker: two creations
  receive different ids exactly when their clock readings differ. The ids of the marker
  collection therefore stay pairwise different under every event, provided that the
  clock reading of each creating click is not already the id of a marker of the
  collection, and that the markers of a project that is loaded have pairwise different
  ids.
\<close>

theorem marker_ids_distinct_while_clock_fresh:
  assumes "step ev s = Inr s'" and "distinct (map marker_id (markers s))"
    and "\<forall>rect e now. ev = CanvasClick rect e now \<longrightarrow> now \<notin> marker_id ` set (markers s)"
    and "\<forall>p ms. ev = LoadProject p \<and> project_markers p = Some ms
           \<longrightarrow> distinct (map marker_id ms)"
  shows "distinct (map marker_id (markers s'))
       \<and> (\<forall>rect e now. ev = CanvasClick rect e now \<longrightarrow>
             markers s' = markers s
             \<or> (\<exists>pos. markers s' = markers s @ [newMarker now pos (markers s)]))
       \<and> (\<forall>now1 pos1 ms1 now2 pos2 ms2.
             marker_id (newMarker now1 pos1 ms1) = now1
             \<and> (marker_id (newMarker now1 pos1 ms1) = marker_id (newMarker now2 pos2 ms2)
                  \<longleftrightarrow> now1 = now2))"
proof -
  from assms(1) obtain t where h: "handler ev s = Inr t"
    and s': "s' = autoSave (setsDependency ev s) t"
    by (auto simp add: step_def split: sum.splits)
  have "distinct (map marker_id (markers t))"
  proof (rule handler_ids_distinct [OF h assms(2)])
    fix rect e now
    assume "ev = CanvasClick rect e now"
    with assms(3) show "now \<notin> marker_id ` set (markers s)" by blast
  next
    fix p ms
    assume "ev = LoadProject p" and "project_markers p = Some ms"
    with assms(4) show "distinct (map marker_id ms)" by blast
  qed
  with s' have a: "distinct (map marker_id (markers s'))" by (simp add: autoSave_keeps)
  have b: "\<forall>rect e now. ev = CanvasClick rect e now \<longrightarrow>
             markers s' = markers s
             \<or> (\<exists>pos. markers s' = markers s @ [newMarker now pos (markers s)])"
  proof (intro allI impI)
    fix rect e now
    assume "ev = CanvasClick rect e now"
    with h have "handleCanvasClick s rect e now = Inr t" by simp
    from handleCanvasClick_markers [OF this] s'
    show "markers s' = markers s
          \<or> (\<exists>pos. markers s' = markers s @ [newMarker now pos (markers s)])"
      by (auto simp add: autoSave_keeps)
  qed
  have c: "\<forall>now1 pos1 ms1 now2 pos2 ms2.
             marker_id (newMarker now1 pos1 ms1) = now1
             \<and> (marker_id (newMarker now1 pos1 ms1) = marker_id (newMarker now2 pos2 ms2)
                  \<longleftrightarrow> now1 = now2)"
    by (simp add: newMarker_def)
  show ?thesis by (intro conjI, rule a, rule b, rule c)
qed

text \<open>A second marker placed at \<open>(150, 150)\<close> when the clock reads 2000: the ids are
  1000 and 2000.\<close>

theorem marker_ids_distinct_while_clock_fresh_witness:
  "\<exists>s'. step (CanvasClick exampleRect (MouseEvent 150 150) 2000)
            (relocatingState\<lparr> relocatingMarker := None \<rparr>) = Inr s'
     \<and> map marker_id (markers s') = [1000, 2000]
     \<and> distinct (map marker_id (markers s'))"
proof -
  let ?s = "relocatingState\<lparr> relocatingMarker := None \<rparr>"
  let ?ev = "CanvasClick exampleRect (MouseEvent 150 150) 2000"
  have st: "\<exists>s'. step ?ev ?s = Inr s' \<and> map marker_id (markers s') = [1000, 2000]"
    by (simp add: model_defs example_defs Let_def sqrt_less_30)
  then obtain s' where s: "step ?ev ?s = Inr s'"
    and ids: "map marker_id (markers s') = [1000, 2000]" by (elim exE conjE)
  have d: "distinct (map marker_id (markers ?s))"
    by (simp add: relocatingState_facts)
  have f: "\<forall>rect e now. ?ev = CanvasClick rect e now \<longrightarrow> now \<notin> marker_id ` set (markers ?s)"
    by (simp add: relocatingState_facts placedMarker_def)
  have l: "\<forall>p ms. ?ev = LoadProject p \<and> project_markers p = Some ms
           \<longrightarrow> distinct (map marker_id ms)"
    by simp
  note t = marker_ids_distinct_while_clock_fresh [OF s d f l, THEN conjunct1]
  show ?thesis by (intro exI [of _ s'] conjI, rule s, rule ids, rule t)
qed

text \<open>Claim C9 as stated fails on the session \<open>collideTrace\<close>: two markers are created
  while the clock reads 1000, and both have the id 1000.\<close>

theorem same_clock_reading_same_id:
  "\<not> isl (run collideTrace exampleState)
   \<and> map marker_id (markers (projr (run collideTrace exampleState))) = [1000, 1000]"
  by (simp add: collideTrace_def model_defs example_defs Let_def sqrt_less_30)


end
